theory Spec2Isabelle
  imports Main "HOL-Library.Word" "HOL-Library.Multiset"
begin

section \<open>Outcomes of the C++ operations\<close>

text \<open>
  The C++ sources signal failure in two ways that a caller can tell apart: a
  \<^verbatim>\<open>throw std::string(...)\<close>, which is surfaced to the caller with its message, and an
  operation whose behaviour the language leaves undefined (\<^verbatim>\<open>top()\<close> of an empty
  \<^verbatim>\<open>std::priority_queue\<close>, an out-of-range \<^verbatim>\<open>operator[]\<close>, \<^verbatim>\<open>erase(end())\<close>,
  \<^verbatim>\<open>va_arg\<close> past the last argument, a copy that leaves its array), which is
  \<open>Undefined\<close>. \<open>UnboundField\<close> is the failure of that name in the specification.
\<close>

datatype failure = Thrown string | UnboundField | Undefined

type_synonym byte = "8 word"

text \<open>A \<^verbatim>\<open>Dataplane*\<close> is kept as an address; no statement below dereferences it.\<close>

type_synonym Dataplane_ptr = nat


section \<open>Context\<close>

text \<open>
  Modelled from the spec: the class \<^verbatim>\<open>Context\<close> of \<^verbatim>\<open>context.hpp\<close>, which is not
  among the sources. Section 3 of the specification gives it a back-pointer to the owning
  dataplane, the raw packet bytes and the field bindings, a mapping from field id to
  (absolute offset, length); section 4.2 gives \<^verbatim>\<open>get_field_binding\<close>, which fails with
  \<^verbatim>\<open>UnboundField\<close> on an unknown id, and \<^verbatim>\<open>get_field\<close>, a view into packet memory
  that starts at the given offset. The members that no operation below reads (header
  cursor, header bindings, action list, metadata, ports) are left out.
\<close>

record Binding =
  binding_offset :: nat
  binding_length :: nat

record Context =
  cxt_dp :: Dataplane_ptr
  cxt_packet :: "byte list"
  cxt_fields :: "int \<rightharpoonup> Binding"

definition Context_ctor :: "Dataplane_ptr \<Rightarrow> byte list \<Rightarrow> Context" where
  "Context_ctor dp bytes = \<lparr>cxt_dp = dp, cxt_packet = bytes, cxt_fields = Map.empty\<rparr>"

definition get_field_binding :: "Context \<Rightarrow> int \<Rightarrow> failure + Binding" where
  "get_field_binding cxt f =
     (case cxt_fields cxt f of None \<Rightarrow> Inl UnboundField | Some b \<Rightarrow> Inr b)"

definition get_field :: "Context \<Rightarrow> nat \<Rightarrow> byte list" where
  "get_field cxt off = drop off (cxt_packet cxt)"


section \<open>Buffer and Pool (fp-lite/buffer.hpp)\<close>

text \<open>
  \<^verbatim>\<open>Buffer(int id, Dataplane* dp) : id_(id), data_(new Byte[2048]), cxt_(dp, {data_, 2048})\<close>.
  The 2048 bytes are not initialised by the source; their indeterminate contents are the
  parameter \<open>mem\<close> (byte \<open>k\<close> of the fresh region is \<open>mem k\<close>).
\<close>

record Buffer =
  buf_id :: int
  buf_data :: "byte list"
  buf_cxt :: Context

definition Buffer_ctor :: "int \<Rightarrow> Dataplane_ptr \<Rightarrow> (nat \<Rightarrow> byte) \<Rightarrow> Buffer" where
  "Buffer_ctor i dp mem =
     \<lparr>buf_id = i, buf_data = map mem [0..<2048],
      buf_cxt = Context_ctor dp (map mem [0..<2048])\<rparr>"

text \<open>\<^verbatim>\<open>int id() const { return id_; }\<close>\<close>

definition Buffer_id :: "Buffer \<Rightarrow> int" where
  "Buffer_id b = buf_id b"

text \<open>
  \<^verbatim>\<open>Heap_type = std::priority_queue<int, std::vector<int>, std::greater<int>>\<close>: what the
  standard fixes is that \<^verbatim>\<open>top()\<close> is a least element and that \<^verbatim>\<open>pop()\<close> removes it;
  both require a non-empty queue. The elements are kept as a bag, here a list whose order
  carries no meaning, so that an index pushed twice is held twice, as in the source.
\<close>

type_synonym Heap_type = "int list"

definition heap_push :: "int \<Rightarrow> Heap_type \<Rightarrow> Heap_type" where
  "heap_push x h = x # h"

definition heap_top :: "Heap_type \<Rightarrow> int" where
  "heap_top h = Min (set h)"

definition heap_pop :: "Heap_type \<Rightarrow> Heap_type" where
  "heap_pop h = remove1 (Min (set h)) h"

text \<open>
  The pool: the buffer store \<^verbatim>\<open>data_\<close> and the free list \<^verbatim>\<open>heap_\<close>. (The members
  are renamed throughout, \<open>buf_id\<close> for \<^verbatim>\<open>Buffer::id_\<close>, \<open>pool_data\<close> for
  \<^verbatim>\<open>Pool::data_\<close> and so on: a name that ends in an underscore is not a term here.) The mutex is held only
  inside \<^verbatim>\<open>alloc\<close> and \<^verbatim>\<open>dealloc\<close>; the model is the sequential behaviour of one call
  at a time.
\<close>

record Pool =
  pool_data :: "Buffer list"
  pool_heap :: Heap_type

text \<open>
  \<^verbatim>\<open>for (int i = 0; i < size; i++) { heap_.push(i); data_.push_back(Buffer(i, dp)); }\<close>
  The counter never passes the size, so no \<^verbatim>\<open>int\<close> overflows. \<open>mem i\<close> is the
  indeterminate content of the region that the \<open>i\<close>-th \<^verbatim>\<open>new Byte[2048]\<close> returns.
\<close>

function Pool_ctor_loop ::
  "int \<Rightarrow> int \<Rightarrow> Dataplane_ptr \<Rightarrow> (int \<Rightarrow> nat \<Rightarrow> byte) \<Rightarrow> Pool \<Rightarrow> Pool" where
  "Pool_ctor_loop i sz dp mem p =
     (if i < sz
      then Pool_ctor_loop (i + 1) sz dp mem
             (p\<lparr>pool_heap := heap_push i (pool_heap p),
                pool_data := pool_data p @ [Buffer_ctor i dp (mem i)]\<rparr>)
      else p)"
  by pat_completeness auto
termination
  by (relation "measure (\<lambda>(i, sz, dp, mem, p). nat (sz - i))") auto

declare Pool_ctor_loop.simps [simp del]

definition Pool_ctor :: "int \<Rightarrow> Dataplane_ptr \<Rightarrow> (int \<Rightarrow> nat \<Rightarrow> byte) \<Rightarrow> Pool" where
  "Pool_ctor sz dp mem = Pool_ctor_loop 0 sz dp mem \<lparr>pool_data = [], pool_heap = []\<rparr>"

text \<open>\<^verbatim>\<open>Pool::Pool(Dataplane* dp) : Pool(4096, dp)\<close>\<close>

definition Pool_default :: "Dataplane_ptr \<Rightarrow> (int \<Rightarrow> nat \<Rightarrow> byte) \<Rightarrow> Pool" where
  "Pool_default dp mem = Pool_ctor 4096 dp mem"

text \<open>
  \<^verbatim>\<open>Pool::operator[](int idx) { return data_[idx]; }\<close>: the vector does not check its
  index, and a negative \<^verbatim>\<open>int\<close> converts to a huge \<^verbatim>\<open>size_type\<close>.
\<close>

definition pool_at :: "Pool \<Rightarrow> int \<Rightarrow> failure + Buffer" where
  "pool_at p idx =
     (if 0 \<le> idx \<and> nat idx < length (pool_data p) then Inr (pool_data p ! nat idx)
      else Inl Undefined)"

text \<open>
  \<^verbatim>\<open>alloc\<close>: the busy-wait on an empty heap is commented out in the source, so the body
  goes straight to \<^verbatim>\<open>int id(heap_.top()); heap_.pop(); return data_[id];\<close>. The result
  is the buffer handed out together with the pool after the call.
\<close>

definition alloc :: "Pool \<Rightarrow> failure + (Buffer \<times> Pool)" where
  "alloc p =
     (if pool_heap p = [] then Inl Undefined
      else
        let i = heap_top (pool_heap p);
            p' = p\<lparr>pool_heap := heap_pop (pool_heap p)\<rparr>
        in (case pool_at p' i of Inl e \<Rightarrow> Inl e | Inr b \<Rightarrow> Inr (b, p')))"

text \<open>\<^verbatim>\<open>dealloc(int id) { heap_.push(id); }\<close>\<close>

definition dealloc :: "int \<Rightarrow> Pool \<Rightarrow> Pool" where
  "dealloc i p = p\<lparr>pool_heap := heap_push i (pool_heap p)\<rparr>"

text \<open>
  A pool is well formed when the buffer at position \<open>k\<close> of the store carries the id
  \<open>k\<close> and every free index is an index of the store.
\<close>

definition pool_wf :: "Pool \<Rightarrow> bool" where
  "pool_wf p \<longleftrightarrow>
     map buf_id (pool_data p) = map int [0..<length (pool_data p)]
     \<and> (\<forall>x \<in> set (pool_heap p). 0 \<le> x \<and> nat x < length (pool_data p))"

text \<open>
  Sequences of pool calls. The source keeps no record of the buffers it has handed out;
  the set of allocated indices is carried beside the pool: \<^verbatim>\<open>alloc\<close> adds the
  \<^verbatim>\<open>id()\<close> of the buffer it returns, \<^verbatim>\<open>dealloc(i)\<close> takes \<open>i\<close> out.
\<close>

datatype pool_op = Alloc | Dealloc int

fun run_ops :: "pool_op list \<Rightarrow> Pool \<times> int set \<Rightarrow> failure + (Pool \<times> int set)" where
  "run_ops [] st = Inr st"
| "run_ops (Alloc # ops) (p, A) =
     (case alloc p of
        Inl e \<Rightarrow> Inl e
      | Inr (b, p') \<Rightarrow> run_ops ops (p', insert (Buffer_id b) A))"
| "run_ops (Dealloc i # ops) (p, A) = run_ops ops (dealloc i p, A - {i})"

text \<open>
  The sequences the pool's contract allows: every \<^verbatim>\<open>alloc\<close> is made with a non-empty
  free list and every \<^verbatim>\<open>dealloc\<close> passes an index that is allocated at that moment.
  Nothing is asked of the result of \<^verbatim>\<open>alloc\<close> itself.
\<close>

fun admissible :: "pool_op list \<Rightarrow> Pool \<times> int set \<Rightarrow> bool" where
  "admissible [] st = True"
| "admissible (Alloc # ops) (p, A) =
     (pool_heap p \<noteq> [] \<and>
      (case alloc p of
         Inl e \<Rightarrow> True
       | Inr (b, p') \<Rightarrow> admissible ops (p', insert (Buffer_id b) A)))"
| "admissible (Dealloc i # ops) (p, A) = (i \<in> A \<and> admissible ops (dealloc i p, A - {i}))"

text \<open>
  Every index of \<open>0..N-1\<close> is in exactly one place: the free list holds no index twice,
  shares none with the allocated set, and the two together are \<open>0..N-1\<close>.
\<close>

definition pool_partition :: "int \<Rightarrow> Pool \<times> int set \<Rightarrow> bool" where
  "pool_partition N st \<longleftrightarrow>
     distinct (pool_heap (fst st))
     \<and> set (pool_heap (fst st)) \<inter> snd st = {}
     \<and> set (pool_heap (fst st)) \<union> snd st = {0..<N}"

definition pool_inv :: "int \<Rightarrow> Pool \<times> int set \<Rightarrow> bool" where
  "pool_inv N st \<longleftrightarrow>
     pool_wf (fst st) \<and> length (pool_data (fst st)) = nat N \<and> pool_partition N st"


section \<open>Locked_queue (fp-lite/buffer.hpp)\<close>

text \<open>
  \<^verbatim>\<open>std::queue<T> queue_\<close>, front of the queue first. \<^verbatim>\<open>int size()\<close> returns
  \<^verbatim>\<open>queue_.size()\<close>, a \<^verbatim>\<open>size_t\<close> converted to a 32-bit \<^verbatim>\<open>int\<close>: the low 32 bits,
  read as two's complement. \<^verbatim>\<open>bool empty() { return size(); }\<close> converts that
  \<^verbatim>\<open>int\<close> to \<^verbatim>\<open>bool\<close>: true when it is not zero.
\<close>

record 'a Locked_queue =
  lq_queue :: "'a list"

definition Locked_queue_ctor :: "'a Locked_queue" where
  "Locked_queue_ctor = \<lparr>lq_queue = []\<rparr>"

definition Locked_queue_size :: "'a Locked_queue \<Rightarrow> int" where
  "Locked_queue_size q = sint (word_of_nat (length (lq_queue q)) :: 32 word)"

definition Locked_queue_empty :: "'a Locked_queue \<Rightarrow> bool" where
  "Locked_queue_empty q \<longleftrightarrow> Locked_queue_size q \<noteq> 0"

definition Locked_queue_enqueue :: "'a \<Rightarrow> 'a Locked_queue \<Rightarrow> 'a Locked_queue" where
  "Locked_queue_enqueue v q = q\<lparr>lq_queue := lq_queue q @ [v]\<rparr>"

text \<open>
  \<^verbatim>\<open>bool dequeue(T& v)\<close>: the result, the value left in \<open>v\<close> (the front of the queue when
  there is one, else what the caller had there) and the queue afterwards.
\<close>

definition Locked_queue_dequeue :: "'a \<Rightarrow> 'a Locked_queue \<Rightarrow> bool \<times> 'a \<times> 'a Locked_queue" where
  "Locked_queue_dequeue v q =
     (case lq_queue q of
        [] \<Rightarrow> (False, v, q)
      | x # xs \<Rightarrow> (True, x, q\<lparr>lq_queue := xs\<rparr>))"


section \<open>Applications and the module table (fp-lite/buffer.hpp, unnamed/part_001)\<close>

text \<open>
  \<^verbatim>\<open>Application(char const* name) : lib_(name), state_(INIT)\<close>. Of the library only the
  path it was opened from is kept.
\<close>

datatype App_State = INIT | READY | RUNNING | STOPPED

record Application =
  app_lib :: string
  app_state :: App_State

definition Application_ctor :: "string \<Rightarrow> Application" where
  "Application_ctor name = \<lparr>app_lib = name, app_state = INIT\<rparr>"

text \<open>
  Modelled from the spec: the types \<^verbatim>\<open>Module_table\<close> and \<^verbatim>\<open>Dataplane_table\<close> of
  \<^verbatim>\<open>system.hpp\<close>, which is not among the sources. Section 9 of the specification calls
  them module-global singleton tables; the calls made on them (\<^verbatim>\<open>find\<close>, \<^verbatim>\<open>end\<close>,
  \<^verbatim>\<open>insert({key, value})\<close>, \<^verbatim>\<open>at\<close>, \<^verbatim>\<open>erase\<close>) are those of a standard associative
  container with unique string keys. The global is passed in and handed back.
\<close>

type_synonym Module_table = "string \<rightharpoonup> Application"

text \<open>\<^verbatim>\<open>insert\<close> of a standard map keeps the old entry when the key is present.\<close>

definition table_insert :: "'k \<Rightarrow> 'v \<Rightarrow> ('k \<rightharpoonup> 'v) \<Rightarrow> ('k \<rightharpoonup> 'v)" where
  "table_insert k v m = (if m k = None then m(k \<mapsto> v) else m)"

text \<open>\<^verbatim>\<open>at\<close> throws \<^verbatim>\<open>std::out_of_range\<close> on a missing key.\<close>

definition table_at :: "('k \<rightharpoonup> 'v) \<Rightarrow> 'k \<Rightarrow> failure + 'v" where
  "table_at m k = (case m k of None \<Rightarrow> Inl (Thrown ''out_of_range'') | Some v \<Rightarrow> Inr v)"

definition load_application :: "string \<Rightarrow> Module_table \<Rightarrow> failure + Module_table" where
  "load_application path module_table =
     (if module_table path \<noteq> None
      then Inl (Thrown (''Application at '' @ [CHR 0x27] @ path @ [CHR 0x27]
                         @ '' has already been loaded''))
      else Inr (table_insert path (Application_ctor path) module_table))"

text \<open>
  \<^verbatim>\<open>auto app = module_table.find(path);
  if (app != module_table.end()) throw std::string("Application at '" + path + "' is not loaded.");
  module_table.erase(app);\<close>
  Past the test \<open>app\<close> is the end iterator, which \<^verbatim>\<open>erase\<close> must not be given.
\<close>

definition unload_application :: "string \<Rightarrow> Module_table \<Rightarrow> failure + Module_table" where
  "unload_application path module_table =
     (if module_table path \<noteq> None
      then Inl (Thrown (''Application at '' @ [CHR 0x27] @ path @ [CHR 0x27]
                         @ '' is not loaded.''))
      else Inl Undefined)"


section \<open>Tables and dataplanes (unnamed/part_001)\<close>

text \<open>
  Modelled from the spec: the enumeration \<^verbatim>\<open>fp::Table::Type\<close> and the class
  \<^verbatim>\<open>fp::Hash_table\<close> of \<^verbatim>\<open>table.hpp\<close>, and the class \<^verbatim>\<open>fp::Dataplane\<close> of
  \<^verbatim>\<open>dataplane.hpp\<close>, none of them among the sources. Section 3 of the specification
  gives a table an id, a type among EXACT, PREFIX and WILDCARD, and a key size, and gives a
  dataplane its name, its application and an ordered list of tables. \<open>Other_type\<close> stands
  for a value of the enumeration's underlying type that names none of the three, which the
  \<^verbatim>\<open>default\<close> branch of the source's switch anticipates.
\<close>

datatype Table_Type = EXACT | PREFIX | WILDCARD | Other_type

record Table =
  table_id :: int
  table_size :: int
  table_key_size :: int
  table_type :: Table_Type

definition Hash_table :: "int \<Rightarrow> int \<Rightarrow> int \<Rightarrow> Table" where
  "Hash_table i sz key_width =
     \<lparr>table_id = i, table_size = sz, table_key_size = key_width, table_type = EXACT\<rparr>"

record Dataplane =
  dp_name :: string
  dp_app :: string
  dp_tables :: "Table list"

definition Dataplane_ctor :: "string \<Rightarrow> string \<Rightarrow> Dataplane" where
  "Dataplane_ctor name app = \<lparr>dp_name = name, dp_app = app, dp_tables = []\<rparr>"

type_synonym Dataplane_table = "string \<rightharpoonup> Dataplane"

text \<open>
  \<^verbatim>\<open>if (dataplane_table.find(name) != dataplane_table.end())
    throw std::string("Data plane name already exists");
  dataplane_table.insert({name, new Dataplane(name, app)});
  return dataplane_table.at(name);\<close>
\<close>

definition create_dataplane ::
  "string \<Rightarrow> string \<Rightarrow> Dataplane_table \<Rightarrow> failure + (Dataplane \<times> Dataplane_table)" where
  "create_dataplane name app dataplane_table =
     (if dataplane_table name \<noteq> None
      then Inl (Thrown ''Data plane name already exists'')
      else
        let t = table_insert name (Dataplane_ctor name app) dataplane_table
        in (case table_at t name of Inl e \<Rightarrow> Inl e | Inr d \<Rightarrow> Inr (d, t)))"

text \<open>
  \<^verbatim>\<open>fp_create_table\<close>: the returned \<^verbatim>\<open>fp::Table*\<close> is \<open>None\<close> for \<^verbatim>\<open>nullptr\<close>. The
  PREFIX and WILDCARD branches of the switch hold a comment and \<^verbatim>\<open>break\<close>, so \<^verbatim>\<open>tbl\<close>
  is still \<^verbatim>\<open>nullptr\<close> at the \<^verbatim>\<open>return\<close>.
\<close>

definition fp_create_table ::
  "Dataplane \<Rightarrow> int \<Rightarrow> int \<Rightarrow> int \<Rightarrow> Table_Type \<Rightarrow> failure + (Table option \<times> Dataplane)" where
  "fp_create_table dp i sz key_width type =
     (case type of
        EXACT \<Rightarrow>
          let tbl = Hash_table i sz key_width
          in Inr (Some tbl, dp\<lparr>dp_tables := dp_tables dp @ [tbl]\<rparr>)
      | PREFIX \<Rightarrow> Inr (None, dp)
      | WILDCARD \<Rightarrow> Inr (None, dp)
      | Other_type \<Rightarrow> Inl (Thrown ''Unknown table type given''))"


section \<open>Key gather (unnamed/part_001)\<close>

text \<open>
  Modelled from the spec: the constant \<^verbatim>\<open>fp::key_size\<close> and the class \<^verbatim>\<open>fp::Key\<close> of
  \<^verbatim>\<open>types.hpp\<close>, which is not among the sources. The source's comment and section 3 of
  the specification fix the constant at 128 bytes; a key is a byte buffer of exact width,
  built by \<^verbatim>\<open>Key(buf, key_width)\<close> from the first \<open>key_width\<close> bytes of \<open>buf\<close>.
\<close>

definition key_size :: nat where
  "key_size = 128"

type_synonym Key = "byte list"

definition Key_ctor :: "byte list \<Rightarrow> int \<Rightarrow> failure + Key" where
  "Key_ctor buf len =
     (if 0 \<le> len \<and> nat len \<le> length buf then Inr (take (nat len) buf) else Inl Undefined)"

text \<open>\<^verbatim>\<open>std::copy(p, p + b.length, &buf[j])\<close> with \<open>src\<close> the bytes \<open>[p, p + b.length)\<close>.\<close>

definition copy_into :: "byte list \<Rightarrow> nat \<Rightarrow> byte list \<Rightarrow> byte list" where
  "copy_into src j buf = take j buf @ src @ drop (j + length src) buf"

text \<open>
  The loop of \<^verbatim>\<open>fp_gather\<close>:
  \<^verbatim>\<open>while (i < n) {
    int f = va_arg(args, int);
    fp::Binding b = cxt->get_field_binding(f);
    fp::Byte* p = cxt->get_field(b.offset);
    std::copy(p, p + b.length, &buf[j]);
    j += b.length;
  }\<close>
  The body does not change \<open>i\<close>. \<open>args\<close> are the arguments the caller passed after
  \<open>n\<close>; a \<^verbatim>\<open>va_arg\<close> with none left, a copy that reads past the packet bytes and a copy
  that writes past \<open>buf\<close> are undefined.
\<close>

fun gather_loop ::
  "Context \<Rightarrow> int \<Rightarrow> int \<Rightarrow> nat \<Rightarrow> int list \<Rightarrow> byte list \<Rightarrow> failure + byte list" where
  "gather_loop cxt n i j args buf =
     (if i < n then
        (case args of
           [] \<Rightarrow> Inl Undefined
         | f # rest \<Rightarrow>
             (case get_field_binding cxt f of
                Inl e \<Rightarrow> Inl e
              | Inr b \<Rightarrow>
                  let p = get_field cxt (binding_offset b) in
                  if length p < binding_length b \<or> length buf < j + binding_length b
                  then Inl Undefined
                  else gather_loop cxt n i (j + binding_length b) rest
                         (copy_into (take (binding_length b) p) j buf)))
      else Inr buf)"

declare gather_loop.simps [simp del]

text \<open>
  \<^verbatim>\<open>fp::Byte buf[fp::key_size]; int i = 0; int j = 0; ... return fp::Key(buf, key_width);\<close>
  The array is not initialised; \<open>stack k\<close> is the indeterminate byte that cell \<open>k\<close> holds
  on entry.
\<close>

definition fp_gather ::
  "Context \<Rightarrow> int \<Rightarrow> int \<Rightarrow> int list \<Rightarrow> (nat \<Rightarrow> byte) \<Rightarrow> failure + Key" where
  "fp_gather cxt key_width n args stack =
     (case gather_loop cxt n 0 0 args (map stack [0..<key_size]) of
        Inl e \<Rightarrow> Inl e
      | Inr buf \<Rightarrow> Key_ctor buf key_width)"

text \<open>The bytes of a bound field, and the key that a list of field ids describes.\<close>

definition field_bytes :: "Context \<Rightarrow> int \<Rightarrow> byte list" where
  "field_bytes cxt f =
     (case cxt_fields cxt f of
        None \<Rightarrow> []
      | Some b \<Rightarrow> take (binding_length b) (drop (binding_offset b) (cxt_packet cxt)))"

definition field_length :: "Context \<Rightarrow> int \<Rightarrow> nat" where
  "field_length cxt f = (case cxt_fields cxt f of None \<Rightarrow> 0 | Some b \<Rightarrow> binding_length b)"

definition field_in_packet :: "Context \<Rightarrow> int \<Rightarrow> bool" where
  "field_in_packet cxt f \<longleftrightarrow>
     (case cxt_fields cxt f of
        None \<Rightarrow> False
      | Some b \<Rightarrow> binding_offset b + binding_length b \<le> length (cxt_packet cxt))"

section \<open>The pool: construction, allocation order and the index partition\<close>

lemma buf_id_Buffer_ctor: "buf_id (Buffer_ctor i dp mem) = i"
  by (simp add: Buffer_ctor_def)

text \<open>The constructor's loop in closed form: the indices from \<open>i\<close> up to \<open>sz - 1\<close>.\<close>

lemma Pool_ctor_loop_eq:
  "Pool_ctor_loop i sz dp mem p =
     p\<lparr>pool_heap := rev [i..sz - 1] @ pool_heap p,
       pool_data := pool_data p @ map (\<lambda>k. Buffer_ctor k dp (mem k)) [i..sz - 1]\<rparr>"
proof (induction i sz dp mem p rule: Pool_ctor_loop.induct)
  case (1 i sz dp mem p)
  show ?case
  proof (cases "i < sz")
    case True
    then have "[i..sz - 1] = i # [i + 1..sz - 1]"
      by (simp add: upto_rec1)
    with True "1" show ?thesis
      by (subst Pool_ctor_loop.simps) (simp add: heap_push_def)
  next
    case False
    then show ?thesis
      by (subst Pool_ctor_loop.simps) simp
  qed
qed

lemma pool_heap_Pool_ctor: "pool_heap (Pool_ctor N dp mem) = rev [0..N - 1]"
  by (simp add: Pool_ctor_def Pool_ctor_loop_eq)

lemma pool_data_Pool_ctor:
  "pool_data (Pool_ctor N dp mem) = map (\<lambda>k. Buffer_ctor k dp (mem k)) [0..N - 1]"
  by (simp add: Pool_ctor_def Pool_ctor_loop_eq)

lemma length_pool_data_Pool_ctor: "length (pool_data (Pool_ctor N dp mem)) = nat N"
  by (simp add: pool_data_Pool_ctor)

lemma nth_pool_data_Pool_ctor:
  "k < nat N \<Longrightarrow> pool_data (Pool_ctor N dp mem) ! k = Buffer_ctor (int k) dp (mem (int k))"
  by (simp add: pool_data_Pool_ctor)

lemma pool_data_alloc: "alloc p = Inr (b, p') \<Longrightarrow> pool_data p' = pool_data p"
  by (auto simp: alloc_def pool_at_def Let_def split: if_splits)

lemma pool_data_dealloc: "pool_data (dealloc i p) = pool_data p"
  by (simp add: dealloc_def)

text \<open>Two small pools, evaluated.\<close>

lemma Pool_ctor_zero: "Pool_ctor 0 dp mem = \<lparr>pool_data = [], pool_heap = []\<rparr>"
  by (simp add: Pool_ctor_def Pool_ctor_loop_eq)

lemma Pool_ctor_two:
  "Pool_ctor 2 dp mem =
     \<lparr>pool_data = [Buffer_ctor 0 dp (mem 0), Buffer_ctor 1 dp (mem 1)], pool_heap = [1, 0]\<rparr>"
  by (simp add: Pool_ctor_def Pool_ctor_loop_eq upto_rec1)

lemma alloc_two:
  "alloc \<lparr>pool_data = [Buffer_ctor 0 dp m0, Buffer_ctor 1 dp m1], pool_heap = [1, 0]\<rparr>
     = Inr (Buffer_ctor 0 dp m0,
            \<lparr>pool_data = [Buffer_ctor 0 dp m0, Buffer_ctor 1 dp m1], pool_heap = [1]\<rparr>)"
  by (simp add: alloc_def heap_top_def heap_pop_def pool_at_def)

lemma alloc_one:
  "alloc \<lparr>pool_data = [Buffer_ctor 0 dp m0, Buffer_ctor 1 dp m1], pool_heap = [1]\<rparr>
     = Inr (Buffer_ctor 1 dp m1,
            \<lparr>pool_data = [Buffer_ctor 0 dp m0, Buffer_ctor 1 dp m1], pool_heap = []\<rparr>)"
  by (simp add: alloc_def heap_top_def heap_pop_def pool_at_def)

text \<open>
  C10. A pool constructed with size \<open>N\<close> stores \<open>N\<close> buffers, the buffer at each
  position \<open>i\<close> of \<open>0..N-1\<close> answers \<^verbatim>\<open>id()\<close> with \<open>i\<close>, and the free heap holds exactly
  the indices \<open>0..N-1\<close>, each once. Neither \<^verbatim>\<open>dealloc\<close> nor \<^verbatim>\<open>alloc\<close> changes the
  buffer store of a pool.
\<close>

theorem pool_construction:
  "length (pool_data (Pool_ctor N dp mem)) = nat N
   \<and> (\<forall>i. 0 \<le> i \<and> i < N \<longrightarrow>
         (\<exists>b. pool_at (Pool_ctor N dp mem) i = Inr b \<and> Buffer_id b = i))
   \<and> mset (pool_heap (Pool_ctor N dp mem)) = mset [0..N - 1]
   \<and> pool_data (dealloc j p) = pool_data p
   \<and> (\<forall>b p'. alloc p = Inr (b, p') \<longrightarrow> pool_data p' = pool_data p)"
proof (intro conjI allI impI)
  show "length (pool_data (Pool_ctor N dp mem)) = nat N"
    by (rule length_pool_data_Pool_ctor)
next
  fix i :: int
  assume "0 \<le> i \<and> i < N"
  then have "pool_at (Pool_ctor N dp mem) i = Inr (Buffer_ctor i dp (mem i))"
    by (simp add: pool_at_def length_pool_data_Pool_ctor nth_pool_data_Pool_ctor)
  then show "\<exists>b. pool_at (Pool_ctor N dp mem) i = Inr b \<and> Buffer_id b = i"
    by (simp add: Buffer_id_def buf_id_Buffer_ctor)
next
  show "mset (pool_heap (Pool_ctor N dp mem)) = mset [0..N - 1]"
    by (simp add: pool_heap_Pool_ctor)
next
  show "pool_data (dealloc j p) = pool_data p"
    by (rule pool_data_dealloc)
next
  fix b p'
  assume "alloc p = Inr (b, p')"
  then show "pool_data p' = pool_data p"
    by (rule pool_data_alloc)
qed

theorem pool_construction_witness:
  "(0 :: int) \<le> 1 \<and> (1 :: int) < 2
   \<and> (\<exists>b. pool_at (Pool_ctor 2 0 (\<lambda>i k. 0)) 1 = Inr b \<and> Buffer_id b = 1)
   \<and> alloc (Pool_ctor 2 0 (\<lambda>i k. 0))
       = Inr (Buffer_ctor 0 0 (\<lambda>k. 0),
              \<lparr>pool_data = [Buffer_ctor 0 0 (\<lambda>k. 0), Buffer_ctor 1 0 (\<lambda>k. 0)],
                pool_heap = [1]\<rparr>)
   \<and> pool_data \<lparr>pool_data = [Buffer_ctor 0 0 (\<lambda>k. 0), Buffer_ctor 1 0 (\<lambda>k. 0)],
                 pool_heap = [1]\<rparr>
       = pool_data (Pool_ctor 2 0 (\<lambda>i k. 0))"
proof -
  note c = pool_construction [of 2 0 "\<lambda>i k. 0" 0 "Pool_ctor 2 0 (\<lambda>i k. 0)"]
  have r: "(0 :: int) \<le> 1 \<and> (1 :: int) < 2"
    by simp
  have a: "alloc (Pool_ctor 2 0 (\<lambda>i k. 0))
       = Inr (Buffer_ctor 0 0 (\<lambda>k. 0),
              \<lparr>pool_data = [Buffer_ctor 0 0 (\<lambda>k. 0), Buffer_ctor 1 0 (\<lambda>k. 0)],
                pool_heap = [1]\<rparr>)"
    by (simp add: Pool_ctor_two alloc_two)
  from c have "\<forall>i. 0 \<le> i \<and> i < 2 \<longrightarrow>
      (\<exists>b. pool_at (Pool_ctor 2 0 (\<lambda>i k. 0)) i = Inr b \<and> Buffer_id b = i)"
    by (elim conjE)
  with r have "\<exists>b. pool_at (Pool_ctor 2 0 (\<lambda>i k. 0)) 1 = Inr b \<and> Buffer_id b = 1"
    by (elim allE [of _ 1] impE) assumption+
  moreover from c have "\<forall>b p'. alloc (Pool_ctor 2 0 (\<lambda>i k. 0)) = Inr (b, p') \<longrightarrow>
      pool_data p' = pool_data (Pool_ctor 2 0 (\<lambda>i k. 0))"
    by (elim conjE)
  with a have "pool_data \<lparr>pool_data = [Buffer_ctor 0 0 (\<lambda>k. 0), Buffer_ctor 1 0 (\<lambda>k. 0)],
                 pool_heap = [1]\<rparr>
       = pool_data (Pool_ctor 2 0 (\<lambda>i k. 0))"
    by (elim allE impE) assumption+
  ultimately show ?thesis
    using r a by (intro conjI) simp_all
qed

text \<open>
  C3, as the source has it. \<^verbatim>\<open>alloc\<close> makes no test for an empty free list and throws
  nothing: on an empty free list it calls \<^verbatim>\<open>top()\<close> and \<^verbatim>\<open>pop()\<close> on the empty heap,
  which is undefined, so that no error reaches the caller and nothing is promised about
  the pool afterwards.
\<close>

theorem alloc_empty_heap:
  "(pool_heap p = [] \<longrightarrow> alloc p = Inl Undefined) \<and> alloc p \<noteq> Inl (Thrown msg)"
  by (simp add: alloc_def pool_at_def Let_def)

theorem alloc_empty_heap_witness:
  "pool_heap (Pool_ctor 0 0 (\<lambda>i k. 0)) = []
   \<and> alloc (Pool_ctor 0 0 (\<lambda>i k. 0)) = Inl Undefined"
  using alloc_empty_heap [of "Pool_ctor 0 0 (\<lambda>i k. 0)"]
  by (simp add: Pool_ctor_zero)

text \<open>
  C3 at the scenario of the specification: a pool of size 2, two allocations, then a
  third. The first two leave the free list empty with the indices 0 and 1 handed out; the
  third is the undefined call, not a \<^verbatim>\<open>PoolExhausted\<close> failure.
\<close>

theorem alloc_exhausted_pool:
  "run_ops [Alloc, Alloc] (Pool_ctor 2 0 (\<lambda>i k. 0), {})
     = Inr (\<lparr>pool_data = [Buffer_ctor 0 0 (\<lambda>k. 0), Buffer_ctor 1 0 (\<lambda>k. 0)], pool_heap = []\<rparr>,
            {1, 0})
   \<and> alloc \<lparr>pool_data = [Buffer_ctor 0 0 (\<lambda>k. 0), Buffer_ctor 1 0 (\<lambda>k. 0)], pool_heap = []\<rparr>
     = Inl Undefined"
proof
  show "run_ops [Alloc, Alloc] (Pool_ctor 2 0 (\<lambda>i k. 0), {})
     = Inr (\<lparr>pool_data = [Buffer_ctor 0 0 (\<lambda>k. 0), Buffer_ctor 1 0 (\<lambda>k. 0)], pool_heap = []\<rparr>,
            {1, 0})"
    by (simp add: Pool_ctor_two alloc_two alloc_one Buffer_id_def buf_id_Buffer_ctor)
  show "alloc \<lparr>pool_data = [Buffer_ctor 0 0 (\<lambda>k. 0), Buffer_ctor 1 0 (\<lambda>k. 0)], pool_heap = []\<rparr>
     = Inl Undefined"
    by (simp add: alloc_def)
qed

text \<open>Well-formed pools: what \<^verbatim>\<open>alloc\<close> does on them, and how they are kept.\<close>

lemma nth_buf_id:
  assumes "pool_wf p" and "k < length (pool_data p)"
  shows "buf_id (pool_data p ! k) = int k"
proof -
  from assms have "map buf_id (pool_data p) ! k = map int [0..<length (pool_data p)] ! k"
    by (simp add: pool_wf_def)
  with assms(2) show ?thesis by simp
qed

lemma heap_top_in: "h \<noteq> [] \<Longrightarrow> heap_top h \<in> set h"
  by (simp add: heap_top_def)

lemma alloc_wf:
  assumes "pool_wf p" and "pool_heap p \<noteq> []"
  shows "alloc p = Inr (pool_data p ! nat (heap_top (pool_heap p)),
                        p\<lparr>pool_heap := heap_pop (pool_heap p)\<rparr>)"
    and "Buffer_id (pool_data p ! nat (heap_top (pool_heap p))) = heap_top (pool_heap p)"
proof -
  from assms have r: "0 \<le> heap_top (pool_heap p)"
    "nat (heap_top (pool_heap p)) < length (pool_data p)"
    using heap_top_in [of "pool_heap p"] by (auto simp: pool_wf_def)
  with assms show "alloc p = Inr (pool_data p ! nat (heap_top (pool_heap p)),
                        p\<lparr>pool_heap := heap_pop (pool_heap p)\<rparr>)"
    by (simp add: alloc_def pool_at_def Let_def)
  from r assms(1)
  show "Buffer_id (pool_data p ! nat (heap_top (pool_heap p))) = heap_top (pool_heap p)"
    by (simp add: Buffer_id_def nth_buf_id)
qed

lemma pool_wf_pop: "pool_wf p \<Longrightarrow> pool_wf (p\<lparr>pool_heap := heap_pop (pool_heap p)\<rparr>)"
  by (auto simp: pool_wf_def heap_pop_def dest: notin_set_remove1)

lemma pool_wf_dealloc:
  "pool_wf p \<Longrightarrow> 0 \<le> i \<Longrightarrow> nat i < length (pool_data p) \<Longrightarrow> pool_wf (dealloc i p)"
  by (auto simp: pool_wf_def dealloc_def heap_push_def)

lemma pool_wf_Pool_ctor: "pool_wf (Pool_ctor N dp mem)"
  by (auto simp: pool_wf_def pool_heap_Pool_ctor pool_data_Pool_ctor o_def buf_id_Buffer_ctor
      intro!: nth_equalityI)

text \<open>
  C4. On a well-formed pool (the store as constructed, the free indices among the indices
  of the store) with a non-empty free set, \<^verbatim>\<open>alloc\<close> returns the buffer whose index is
  the minimum of the free set and takes that index out of the free set, leaving the store
  as it was. In particular, after \<^verbatim>\<open>dealloc(0)\<close> into such a pool whose free set was
  empty, the next \<^verbatim>\<open>alloc\<close> returns the buffer with index 0.
\<close>

theorem alloc_returns_min:
  "(pool_wf p \<and> pool_heap p \<noteq> [] \<longrightarrow>
      (\<exists>b p'. alloc p = Inr (b, p') \<and> Buffer_id b = Min (set (pool_heap p))
         \<and> pool_at p (Min (set (pool_heap p))) = Inr b
         \<and> mset (pool_heap p') = mset (pool_heap p) - {#Min (set (pool_heap p))#}
         \<and> pool_data p' = pool_data p))
   \<and> (pool_wf p \<and> pool_heap p = [] \<and> pool_data p \<noteq> [] \<longrightarrow>
      (\<exists>b p'. alloc (dealloc 0 p) = Inr (b, p') \<and> Buffer_id b = 0
         \<and> pool_at p 0 = Inr b \<and> pool_heap p' = []))"
proof (intro conjI impI)
  assume a: "pool_wf p \<and> pool_heap p \<noteq> []"
  let ?m = "Min (set (pool_heap p))"
  from a have m: "?m \<in> set (pool_heap p)" by simp
  with a have r: "0 \<le> ?m" "nat ?m < length (pool_data p)"
    by (auto simp: pool_wf_def)
  from a alloc_wf [of p] have
    "alloc p = Inr (pool_data p ! nat ?m, p\<lparr>pool_heap := heap_pop (pool_heap p)\<rparr>)"
    "Buffer_id (pool_data p ! nat ?m) = ?m"
    by (simp_all add: heap_top_def)
  moreover from r have "pool_at p ?m = Inr (pool_data p ! nat ?m)"
    by (simp add: pool_at_def)
  moreover have "mset (heap_pop (pool_heap p)) = mset (pool_heap p) - {#?m#}"
    by (simp add: heap_pop_def)
  ultimately show "\<exists>b p'. alloc p = Inr (b, p') \<and> Buffer_id b = ?m
         \<and> pool_at p ?m = Inr b
         \<and> mset (pool_heap p') = mset (pool_heap p) - {#?m#}
         \<and> pool_data p' = pool_data p"
    by simp
next
  assume a: "pool_wf p \<and> pool_heap p = [] \<and> pool_data p \<noteq> []"
  then have wf: "pool_wf (dealloc 0 p)"
    by (simp add: pool_wf_dealloc)
  from a have h: "pool_heap (dealloc 0 p) = [0]"
    by (simp add: dealloc_def heap_push_def)
  from a have "pool_at p 0 = Inr (pool_data p ! 0)"
    by (simp add: pool_at_def)
  with h alloc_wf [OF wf] show
    "\<exists>b p'. alloc (dealloc 0 p) = Inr (b, p') \<and> Buffer_id b = 0
       \<and> pool_at p 0 = Inr b \<and> pool_heap p' = []"
    by (simp add: heap_top_def heap_pop_def pool_data_dealloc)
qed

theorem alloc_returns_min_witness:
  "pool_wf (Pool_ctor 2 0 (\<lambda>i k. 0)) \<and> pool_heap (Pool_ctor 2 0 (\<lambda>i k. 0)) \<noteq> []
   \<and> (\<exists>b p'. alloc (Pool_ctor 2 0 (\<lambda>i k. 0)) = Inr (b, p') \<and> Buffer_id b = 0)
   \<and> pool_wf \<lparr>pool_data = [Buffer_ctor 0 0 (\<lambda>k. 0), Buffer_ctor 1 0 (\<lambda>k. 0)], pool_heap = []\<rparr>
   \<and> (\<exists>b p'. alloc (dealloc 0 \<lparr>pool_data = [Buffer_ctor 0 0 (\<lambda>k. 0), Buffer_ctor 1 0 (\<lambda>k. 0)],
                                 pool_heap = []\<rparr>) = Inr (b, p')
         \<and> Buffer_id b = 0)"
proof -
  let ?p = "Pool_ctor 2 0 (\<lambda>i k. 0)"
  let ?q = "\<lparr>pool_data = [Buffer_ctor 0 0 (\<lambda>k. 0), Buffer_ctor 1 0 (\<lambda>k. 0)], pool_heap = []\<rparr>"
  have p: "pool_wf ?p \<and> pool_heap ?p \<noteq> []"
    by (simp add: pool_wf_Pool_ctor) (simp add: Pool_ctor_two)
  have q: "pool_wf ?q \<and> pool_heap ?q = [] \<and> pool_data ?q \<noteq> []"
    by (simp add: pool_wf_def buf_id_Buffer_ctor)
  have min: "Min (set (pool_heap ?p)) = 0"
    by (simp add: Pool_ctor_two)
  from alloc_returns_min [of ?p, THEN conjunct1, THEN mp, OF p] min
  have "\<exists>b p'. alloc ?p = Inr (b, p') \<and> Buffer_id b = 0"
    by auto
  moreover from alloc_returns_min [of ?q, THEN conjunct2, THEN mp, OF q]
  have "\<exists>b p'. alloc (dealloc 0 ?q) = Inr (b, p') \<and> Buffer_id b = 0"
    by auto
  ultimately show ?thesis
    using p q by simp
qed

text \<open>The partition of the indices is kept by every call the contract allows.\<close>

lemma pool_inv_init: "pool_inv N (Pool_ctor N dp mem, {})"
  by (auto simp: pool_inv_def pool_wf_Pool_ctor length_pool_data_Pool_ctor
      pool_partition_def pool_heap_Pool_ctor)

lemma pool_inv_alloc:
  assumes inv: "pool_inv N (p, A)" and ne: "pool_heap p \<noteq> []"
  shows "\<exists>b p'. alloc p = Inr (b, p') \<and> pool_inv N (p', insert (Buffer_id b) A)"
proof -
  let ?m = "heap_top (pool_heap p)"
  let ?p' = "p\<lparr>pool_heap := heap_pop (pool_heap p)\<rparr>"
  from inv have wf: "pool_wf p" by (simp add: pool_inv_def)
  note al = alloc_wf [OF wf ne]
  from ne have m: "?m \<in> set (pool_heap p)" by (rule heap_top_in)
  from inv have d: "distinct (pool_heap p)" "set (pool_heap p) \<inter> A = {}"
    "set (pool_heap p) \<union> A = {0..<N}"
    by (simp_all add: pool_inv_def pool_partition_def)
  have pop: "heap_pop (pool_heap p) = remove1 ?m (pool_heap p)"
    by (simp add: heap_pop_def heap_top_def)
  from d m have "pool_partition N (?p', insert ?m A)"
    by (auto simp: pool_partition_def pop)
  moreover from inv have "length (pool_data ?p') = nat N"
    by (simp add: pool_inv_def)
  ultimately have "pool_inv N (?p', insert ?m A)"
    using pool_wf_pop [OF wf] by (simp add: pool_inv_def)
  with al show ?thesis by simp
qed

lemma pool_inv_dealloc:
  assumes inv: "pool_inv N (p, A)" and i: "i \<in> A"
  shows "pool_inv N (dealloc i p, A - {i})"
proof -
  from inv have d: "distinct (pool_heap p)" "set (pool_heap p) \<inter> A = {}"
    "set (pool_heap p) \<union> A = {0..<N}" and wf: "pool_wf p"
    and len: "length (pool_data p) = nat N"
    by (simp_all add: pool_inv_def pool_partition_def)
  from d i have r: "0 \<le> i" "i < N" by auto
  with len have "pool_wf (dealloc i p)"
    by (intro pool_wf_dealloc wf) simp_all
  moreover from d i have "pool_partition N (dealloc i p, A - {i})"
    by (auto simp: pool_partition_def dealloc_def heap_push_def)
  ultimately show ?thesis
    using len by (simp add: pool_inv_def pool_data_dealloc)
qed

lemma run_ops_inv:
  "pool_inv N st \<Longrightarrow> admissible ops st \<Longrightarrow> \<exists>st'. run_ops ops st = Inr st' \<and> pool_inv N st'"
proof (induction ops arbitrary: st)
  case Nil
  then show ?case by simp
next
  case (Cons x ops)
  obtain p A where st: "st = (p, A)" by (cases st)
  show ?case
  proof (cases x)
    case Alloc
    with Cons.prems st have ne: "pool_heap p \<noteq> []" by simp
    from pool_inv_alloc [OF Cons.prems(1) [unfolded st] ne] obtain b p'
      where al: "alloc p = Inr (b, p')" and inv': "pool_inv N (p', insert (Buffer_id b) A)"
      by blast
    from Cons.prems(2) st Alloc al have "admissible ops (p', insert (Buffer_id b) A)"
      by simp
    from Cons.IH [OF inv' this] al st Alloc show ?thesis by simp
  next
    case (Dealloc i)
    with Cons.prems st have i: "i \<in> A" and adm: "admissible ops (dealloc i p, A - {i})"
      by simp_all
    from pool_inv_dealloc [OF Cons.prems(1) [unfolded st] i]
    have "pool_inv N (dealloc i p, A - {i})" .
    from Cons.IH [OF this adm] st Dealloc show ?thesis by simp
  qed
qed

lemma admissible_take: "admissible ops st \<Longrightarrow> admissible (take k ops) st"
proof (induction ops arbitrary: st k)
  case Nil
  then show ?case by simp
next
  case (Cons x ops)
  obtain p A where st: "st = (p, A)" by (cases st)
  show ?case
  proof (cases k)
    case 0
    then show ?thesis by simp
  next
    case (Suc k')
    with Cons st show ?thesis
      by (cases x) (auto split: sum.splits)
  qed
qed

text \<open>
  C5. Take a pool constructed with \<open>N\<close> buffers and any sequence of \<^verbatim>\<open>alloc\<close> calls,
  each made with a non-empty free set, and \<^verbatim>\<open>dealloc\<close> calls, each passing an index
  allocated at that moment. After every prefix of the sequence the calls have all returned
  and every index of \<open>0..N-1\<close> is in exactly one of the free heap and the allocated set.
\<close>

theorem pool_index_partition:
  "admissible ops (Pool_ctor N dp mem, {}) \<longrightarrow>
     (\<forall>k \<le> length ops. \<exists>p A. run_ops (take k ops) (Pool_ctor N dp mem, {}) = Inr (p, A)
         \<and> pool_partition N (p, A))"
proof (intro impI allI)
  fix k
  assume a: "admissible ops (Pool_ctor N dp mem, {})" and "k \<le> length ops"
  from run_ops_inv [OF pool_inv_init admissible_take [OF a], of k]
  show "\<exists>p A. run_ops (take k ops) (Pool_ctor N dp mem, {}) = Inr (p, A)
      \<and> pool_partition N (p, A)"
    by (auto simp: pool_inv_def)
qed

theorem pool_index_partition_witness:
  "admissible [Alloc, Alloc, Dealloc 0] (Pool_ctor 2 0 (\<lambda>i k. 0), {})
   \<and> (3 :: nat) \<le> length [Alloc, Alloc, Dealloc 0]
   \<and> (\<exists>p A. run_ops [Alloc, Alloc, Dealloc 0] (Pool_ctor 2 0 (\<lambda>i k. 0), {}) = Inr (p, A)
         \<and> pool_partition 2 (p, A))"
proof -
  have a: "admissible [Alloc, Alloc, Dealloc 0] (Pool_ctor 2 0 (\<lambda>i k. 0), {})"
    by (simp add: Pool_ctor_two alloc_two alloc_one Buffer_id_def buf_id_Buffer_ctor)
  have k: "(3 :: nat) \<le> length [Alloc, Alloc, Dealloc 0]"
    by simp
  from pool_index_partition [of "[Alloc, Alloc, Dealloc 0]" 2 0 "\<lambda>i k. 0", THEN mp, OF a,
      THEN spec, of 3, THEN mp, OF k]
  have "\<exists>p A. run_ops [Alloc, Alloc, Dealloc 0] (Pool_ctor 2 0 (\<lambda>i k. 0), {}) = Inr (p, A)
         \<and> pool_partition 2 (p, A)"
    by simp
  with a k show ?thesis
    by (intro conjI)
qed


section \<open>Locked_queue::empty\<close>

lemma sint_word_of_nat_eq_0: "sint (word_of_nat n :: 32 word) = 0 \<longleftrightarrow> 2 ^ 32 dvd n"
  by (simp add: signed_eq_0_iff word_of_nat_eq_0_iff)

text \<open>
  C8, as the source has it. In every state \<^verbatim>\<open>empty()\<close> is \<^verbatim>\<open>size()\<close> converted to
  \<^verbatim>\<open>bool\<close>, and \<^verbatim>\<open>size()\<close> is the element count narrowed to 32 bits: \<^verbatim>\<open>empty()\<close>
  is true exactly when the count is not a multiple of \<open>2 ^ 32\<close>. For every queue of
  fewer than \<open>2 ^ 32\<close> elements that is true exactly when the queue holds an element:
  the inverse of an emptiness test.
\<close>

theorem Locked_queue_empty_inverted:
  "(Locked_queue_empty q \<longleftrightarrow> Locked_queue_size q \<noteq> 0)
   \<and> (Locked_queue_empty q \<longleftrightarrow> \<not> 2 ^ 32 dvd length (lq_queue q))
   \<and> (length (lq_queue q) < 2 ^ 32 \<longrightarrow> (Locked_queue_empty q \<longleftrightarrow> lq_queue q \<noteq> []))"
proof (intro conjI impI)
  show "Locked_queue_empty q \<longleftrightarrow> Locked_queue_size q \<noteq> 0"
    by (simp add: Locked_queue_empty_def)
next
  show "Locked_queue_empty q \<longleftrightarrow> \<not> 2 ^ 32 dvd length (lq_queue q)"
    by (simp add: Locked_queue_empty_def Locked_queue_size_def sint_word_of_nat_eq_0)
next
  assume "length (lq_queue q) < 2 ^ 32"
  then have "(2 ^ 32 dvd length (lq_queue q)) = (length (lq_queue q) = 0)"
    by (auto dest: dvd_imp_le)
  then show "Locked_queue_empty q \<longleftrightarrow> lq_queue q \<noteq> []"
    by (simp add: Locked_queue_empty_def Locked_queue_size_def sint_word_of_nat_eq_0)
qed

theorem Locked_queue_empty_inverted_witness:
  "length (lq_queue \<lparr>lq_queue = [7 :: int, 8]\<rparr>) < 2 ^ 32
   \<and> Locked_queue_empty \<lparr>lq_queue = [7 :: int, 8]\<rparr>
   \<and> length (lq_queue (Locked_queue_ctor :: int Locked_queue)) < 2 ^ 32
   \<and> \<not> Locked_queue_empty (Locked_queue_ctor :: int Locked_queue)"
  using Locked_queue_empty_inverted
      [of "\<lparr>lq_queue = [7 :: int, 8]\<rparr>", THEN conjunct2, THEN conjunct2]
    Locked_queue_empty_inverted
      [of "Locked_queue_ctor :: int Locked_queue", THEN conjunct2, THEN conjunct2]
  by (simp add: Locked_queue_ctor_def)

text \<open>
  C8 at a queue of \<open>2 ^ 32\<close> elements: the queue is not empty, \<^verbatim>\<open>size()\<close> narrows the
  count to 0, and \<^verbatim>\<open>empty()\<close> is false.
\<close>

theorem Locked_queue_empty_wraps:
  "lq_queue \<lparr>lq_queue = replicate (2 ^ 32) (0 :: int)\<rparr> \<noteq> []
   \<and> Locked_queue_size \<lparr>lq_queue = replicate (2 ^ 32) (0 :: int)\<rparr> = 0
   \<and> \<not> Locked_queue_empty \<lparr>lq_queue = replicate (2 ^ 32) (0 :: int)\<rparr>"
  by (simp add: Locked_queue_empty_def Locked_queue_size_def sint_word_of_nat_eq_0)


section \<open>The module table and the dataplane registry\<close>

text \<open>
  C7. \<^verbatim>\<open>unload_application(path)\<close> throws exactly when an application is registered
  under \<open>path\<close>, and what it throws is the message that the application ``is not loaded''.
\<close>

theorem unload_application_throws:
  "((\<exists>msg. unload_application path module_table = Inl (Thrown msg)) \<longleftrightarrow>
       path \<in> dom module_table)
   \<and> (\<forall>msg. unload_application path module_table = Inl (Thrown msg) \<longrightarrow>
         msg = ''Application at '' @ [CHR 0x27] @ path @ [CHR 0x27] @ '' is not loaded.'')"
  by (auto simp: unload_application_def)

theorem unload_application_throws_witness:
  "''a.so'' \<in> dom [''a.so'' \<mapsto> Application_ctor ''a.so'']
   \<and> unload_application ''a.so'' [''a.so'' \<mapsto> Application_ctor ''a.so'']
       = Inl (Thrown (''Application at '' @ [CHR 0x27] @ ''a.so'' @ [CHR 0x27]
                       @ '' is not loaded.''))
   \<and> ''a.so'' \<notin> dom (Map.empty :: Module_table)
   \<and> unload_application ''a.so'' Map.empty = Inl Undefined"
proof -
  note u = unload_application_throws [of "''a.so''" "[''a.so'' \<mapsto> Application_ctor ''a.so'']"]
  have "\<exists>msg. unload_application ''a.so'' [''a.so'' \<mapsto> Application_ctor ''a.so'']
      = Inl (Thrown msg)"
    using u by simp
  then obtain msg where m: "unload_application ''a.so'' [''a.so'' \<mapsto> Application_ctor ''a.so'']
      = Inl (Thrown msg)" ..
  with u have "msg = ''Application at '' @ [CHR 0x27] @ ''a.so'' @ [CHR 0x27]
      @ '' is not loaded.''"
    by blast
  with m show ?thesis
    by (simp add: unload_application_def)
qed

text \<open>
  C9. \<^verbatim>\<open>create_dataplane(name, app)\<close> fails exactly when the registry already has a
  dataplane of that name, with the exception ``Data plane name already exists'' (the
  specification's \<^verbatim>\<open>DuplicateDataplaneName\<close>) thrown to the caller, and it fails in no
  other way. Otherwise it returns the new dataplane, registered under that name, and the
  registry has gained that entry and is otherwise as before.
\<close>

theorem create_dataplane_duplicate:
  "(create_dataplane name app dataplane_table = Inl (Thrown ''Data plane name already exists'')
      \<longleftrightarrow> name \<in> dom dataplane_table)
   \<and> (\<forall>e. create_dataplane name app dataplane_table = Inl e \<longrightarrow>
         e = Thrown ''Data plane name already exists'')
   \<and> (name \<notin> dom dataplane_table \<longrightarrow>
        (\<exists>d t. create_dataplane name app dataplane_table = Inr (d, t)
           \<and> d = Dataplane_ctor name app \<and> t name = Some d
           \<and> dom t = insert name (dom dataplane_table)
           \<and> (\<forall>k. k \<noteq> name \<longrightarrow> t k = dataplane_table k)))"
  by (auto simp: create_dataplane_def table_insert_def table_at_def Let_def)

theorem create_dataplane_duplicate_witness:
  "''dp1'' \<notin> dom (Map.empty :: Dataplane_table)
   \<and> (\<exists>d t. create_dataplane ''dp1'' ''wire'' Map.empty = Inr (d, t)
         \<and> d = Dataplane_ctor ''dp1'' ''wire'' \<and> t ''dp1'' = Some d)
   \<and> ''dp1'' \<in> dom [''dp1'' \<mapsto> Dataplane_ctor ''dp1'' ''wire'']
   \<and> create_dataplane ''dp1'' ''hub'' [''dp1'' \<mapsto> Dataplane_ctor ''dp1'' ''wire'']
       = Inl (Thrown ''Data plane name already exists'')"
proof -
  have n: "''dp1'' \<notin> dom (Map.empty :: Dataplane_table)"
    by simp
  have m: "''dp1'' \<in> dom [''dp1'' \<mapsto> Dataplane_ctor ''dp1'' ''wire'']"
    by simp
  note fresh = create_dataplane_duplicate [of "''dp1''" "''wire''" Map.empty,
      THEN conjunct2, THEN conjunct2, THEN mp, OF n]
  note dup = create_dataplane_duplicate
      [of "''dp1''" "''hub''" "[''dp1'' \<mapsto> Dataplane_ctor ''dp1'' ''wire'']",
       THEN conjunct1, THEN iffD2, OF m]
  from fresh have "\<exists>d t. create_dataplane ''dp1'' ''wire'' Map.empty = Inr (d, t)
         \<and> d = Dataplane_ctor ''dp1'' ''wire'' \<and> t ''dp1'' = Some d"
    by (elim exE conjE) (intro exI conjI, assumption+)
  with n m dup show ?thesis
    by (intro conjI)
qed


section \<open>Table creation\<close>

text \<open>
  C6, as the source has it. For the table types PREFIX and WILDCARD \<^verbatim>\<open>fp_create_table\<close>
  builds nothing: it returns the null pointer, throws nothing and leaves the dataplane's
  list of tables as it was.
\<close>

theorem fp_create_table_reserved_types:
  "fp_create_table dp i sz key_width PREFIX = Inr (None, dp)
   \<and> fp_create_table dp i sz key_width WILDCARD = Inr (None, dp)"
  by (simp add: fp_create_table_def)

text \<open>
  C6 at a fresh dataplane: a PREFIX table is asked for, no table comes back and none is
  listed, so there is nothing to call \<^verbatim>\<open>find\<close> on.
\<close>

theorem fp_create_table_prefix_null:
  "fp_create_table (Dataplane_ctor ''dp1'' ''wire'') 0 16 4 PREFIX
     = Inr (None, \<lparr>dp_name = ''dp1'', dp_app = ''wire'', dp_tables = []\<rparr>)"
  by (simp add: fp_create_table_def Dataplane_ctor_def)


section \<open>Key gather\<close>

lemma length_copy_into:
  "j + length src \<le> length buf \<Longrightarrow> length (copy_into src j buf) = length buf"
  by (simp add: copy_into_def)

text \<open>
  While \<open>i < n\<close> the loop has no way out but a failure: each round leaves \<open>i\<close> as it is
  and takes one more argument.
\<close>

lemma gather_loop_no_result:
  "i < n \<Longrightarrow> gather_loop cxt n i j args buf \<noteq> Inr r"
proof (induction args arbitrary: j buf)
  case Nil
  then show ?case
    by (subst gather_loop.simps) simp
next
  case (Cons f rest)
  then show ?case
    by (subst gather_loop.simps) (simp add: Let_def split: sum.splits)
qed

lemma fp_gather_no_key: "0 < n \<Longrightarrow> fp_gather cxt key_width n args stack \<noteq> Inr k"
  using gather_loop_no_result [of 0 n cxt 0 args "map stack [0..<key_size]"]
  by (auto simp: fp_gather_def split: sum.splits)

lemma gather_loop_unbound:
  "i < n \<Longrightarrow> cxt_fields cxt f = None \<Longrightarrow> \<forall>g \<in> set pre. field_in_packet cxt g \<Longrightarrow>
   j + sum_list (map (field_length cxt) pre) \<le> length buf \<Longrightarrow>
   gather_loop cxt n i j (pre @ f # post) buf = Inl UnboundField"
proof (induction pre arbitrary: j buf)
  case Nil
  then show ?case
    by (subst gather_loop.simps) (simp add: get_field_binding_def)
next
  case (Cons g pre)
  from Cons.prems(3) obtain b where b: "cxt_fields cxt g = Some b"
    and fit: "binding_offset b + binding_length b \<le> length (cxt_packet cxt)"
    by (auto simp: field_in_packet_def split: option.splits)
  from b have len: "field_length cxt g = binding_length b"
    by (simp add: field_length_def)
  let ?src = "take (binding_length b) (get_field cxt (binding_offset b))"
  from fit have src: "length ?src = binding_length b"
    by (simp add: get_field_def)
  from Cons.prems(4) len have room: "j + binding_length b \<le> length buf"
    by simp
  have "gather_loop cxt n i (j + binding_length b) (pre @ f # post) (copy_into ?src j buf)
          = Inl UnboundField"
  proof (rule Cons.IH)
    show "i < n" by fact
    show "cxt_fields cxt f = None" by fact
    from Cons.prems(3) show "\<forall>g \<in> set pre. field_in_packet cxt g" by simp
    from Cons.prems(4) len room src
    show "j + binding_length b + sum_list (map (field_length cxt) pre)
            \<le> length (copy_into ?src j buf)"
      by (simp add: length_copy_into)
  qed
  with Cons.prems(1) b fit room show ?case
    by (subst gather_loop.simps) (simp add: get_field_binding_def get_field_def Let_def)
qed

text \<open>
  C1 at one field. The context binds field 10 to the four packet bytes 01 02 03 04, and
  the call lists that one field with \<open>key_width = 4\<close> and \<open>n = 1\<close>. The key asked for is
  01 02 03 04; the call copies the field, finds \<open>i\<close> still below \<open>n\<close>, and goes on to
  a \<^verbatim>\<open>va_arg\<close> with no argument left.
\<close>

theorem fp_gather_one_field_no_key:
  "field_bytes \<lparr>cxt_dp = 0, cxt_packet = [1, 2, 3, 4],
                 cxt_fields = [10 \<mapsto> \<lparr>binding_offset = 0, binding_length = 4\<rparr>]\<rparr> 10
     = [1, 2, 3, 4]
   \<and> fp_gather \<lparr>cxt_dp = 0, cxt_packet = [1, 2, 3, 4],
                 cxt_fields = [10 \<mapsto> \<lparr>binding_offset = 0, binding_length = 4\<rparr>]\<rparr>
       4 1 [10] (\<lambda>k. 0) = Inl Undefined"
  by (simp add: field_bytes_def fp_gather_def gather_loop.simps get_field_binding_def
      get_field_def key_size_def Let_def)

text \<open>
  C2 at no field. The call lists no field, so the listed lengths sum to 0, and asks for
  \<open>key_width = 4\<close>: it returns a key, four bytes of the buffer as it found it.
\<close>

theorem fp_gather_width_unchecked:
  "sum_list (map (field_length \<lparr>cxt_dp = 0, cxt_packet = [1, 2, 3, 4],
                   cxt_fields = Map.empty\<rparr>) []) = 0
   \<and> fp_gather \<lparr>cxt_dp = 0, cxt_packet = [1, 2, 3, 4], cxt_fields = Map.empty\<rparr>
       4 0 [] (\<lambda>k. 0) = Inr [0, 0, 0, 0]"
  by (simp add: fp_gather_def gather_loop.simps Key_ctor_def key_size_def take_map
      upt_conv_Cons)

text \<open>
  C2, as the source has it. When a field id among the first \<open>n\<close> listed has no binding,
  and the fields listed before it are bound inside the packet and fit the key buffer
  together, the call fails with \<^verbatim>\<open>UnboundField\<close> and returns no key, whatever
  \<open>key_width\<close> is.
\<close>

theorem fp_gather_unbound_field:
  "int (length pre) < n \<and> cxt_fields cxt f = None
   \<and> (\<forall>g \<in> set pre. field_in_packet cxt g)
   \<and> sum_list (map (field_length cxt) pre) \<le> key_size
   \<longrightarrow> fp_gather cxt key_width n (pre @ f # post) stack = Inl UnboundField"
proof
  assume a: "int (length pre) < n \<and> cxt_fields cxt f = None
   \<and> (\<forall>g \<in> set pre. field_in_packet cxt g)
   \<and> sum_list (map (field_length cxt) pre) \<le> key_size"
  then have "0 < n" by linarith
  with a have "gather_loop cxt n 0 0 (pre @ f # post) (map stack [0..<key_size])
      = Inl UnboundField"
    by (intro gather_loop_unbound) simp_all
  then show "fp_gather cxt key_width n (pre @ f # post) stack = Inl UnboundField"
    by (simp add: fp_gather_def)
qed

theorem fp_gather_unbound_field_witness:
  "int (length [10 :: int]) < 2
   \<and> cxt_fields \<lparr>cxt_dp = 0, cxt_packet = [1, 2, 3, 4],
         cxt_fields = [10 \<mapsto> \<lparr>binding_offset = 0, binding_length = 4\<rparr>]\<rparr> 11 = None
   \<and> field_in_packet \<lparr>cxt_dp = 0, cxt_packet = [1, 2, 3, 4],
         cxt_fields = [10 \<mapsto> \<lparr>binding_offset = 0, binding_length = 4\<rparr>]\<rparr> 10
   \<and> field_length \<lparr>cxt_dp = 0, cxt_packet = [1, 2, 3, 4],
         cxt_fields = [10 \<mapsto> \<lparr>binding_offset = 0, binding_length = 4\<rparr>]\<rparr> 10 \<le> key_size
   \<and> fp_gather \<lparr>cxt_dp = 0, cxt_packet = [1, 2, 3, 4],
         cxt_fields = [10 \<mapsto> \<lparr>binding_offset = 0, binding_length = 4\<rparr>]\<rparr>
       8 2 ([10] @ 11 # []) (\<lambda>k. 0) = Inl UnboundField"
  using fp_gather_unbound_field [of "[10]" 2
      "\<lparr>cxt_dp = 0, cxt_packet = [1, 2, 3, 4],
        cxt_fields = [10 \<mapsto> \<lparr>binding_offset = 0, binding_length = 4\<rparr>]\<rparr>" 11 8 "[]" "\<lambda>k. 0"]
  by (simp add: field_in_packet_def field_length_def key_size_def)

end
